theory Spec2Isabelle
  imports Complex_Main "HOL-Library.Sublist"
begin

section \<open>Attachment upload in the chat input (InputChatContent.tsx)\<close>

subsection \<open>Data\<close>

text \<open>
  A browser \<open>File\<close>, reduced to the three properties the component reads:
  \<open>file.name\<close>, \<open>file.type\<close> and \<open>file.size\<close>.
\<close>

record File =
  file_name :: string
  file_type :: string
  file_size :: nat

text \<open>The request and response bodies declared in \<open>utils/s3Documents.ts\<close>.\<close>

record DocumentUploadRequest =
  filename :: string
  content_type :: string
  req_file_size :: nat

record DocumentUploadResponse =
  uploadUrl :: string
  s3Key :: string
  expiresIn :: nat

text \<open>
  \<open>PDFSplitRequest\<close>: \<open>s3_key\<close> and the optional \<open>max_size_mb\<close> (\<open>None\<close> when the
  property is left out).
\<close>

record PDFSplitRequest =
  s3_key :: string
  max_size_mb :: "real option"

text \<open>
  One element of \<open>PDFSplitResponse.chunks\<close>. The interface declares \<open>chunkIndex\<close>,
  \<open>s3Key\<close>, \<open>pageCount\<close>, \<open>sizeBytes\<close> and \<open>base64Content\<close>. The component also reads
  \<open>chunk.fileName\<close>, a property the interface does not declare: it is whatever the
  parsed JSON object holds under that name, \<open>None\<close> standing for \<open>undefined\<close>.
\<close>

record PDFSplitChunk =
  chunkIndex :: nat
  chunk_s3Key :: string
  pageCount :: nat
  chunk_sizeBytes :: nat
  base64Content :: string
  chunk_fileName :: "string option"

record PDFSplitResponse =
  chunks :: "PDFSplitChunk list"
  totalChunks :: nat

text \<open>
  An element of \<open>s3AttachedFiles\<close> in the store. Its \<open>name\<close> is a JavaScript value
  that the split path fills from \<open>chunk.fileName\<close>, so it is optional here too.
\<close>

record S3AttachedFile =
  att_name :: "string option"
  att_type :: string
  att_size :: nat
  att_s3Key :: string

record AttachedFile =
  txt_name :: string
  txt_type :: string
  txt_size :: nat
  txt_content :: string

text \<open>The messages handed to the snackbar through \<open>open(t(...))\<close>.\<close>

datatype message =
    FileSizeExceeded nat
  | FileCountExceeded nat
  | UnsupportedFileFormat
  | PdfSplit nat
  | FileUploadFailed

text \<open>The requests the component sends, in the order it sends them.\<close>

datatype call =
    GetDocumentUploadUrl string DocumentUploadRequest
  | UploadFileToS3 string File
  | SplitPDF string PDFSplitRequest

text \<open>
  The three functions of \<open>utils/s3Documents.ts\<close> seen from the component: each either
  returns the parsed response or throws (\<open>None\<close>, \<open>False\<close>) when the HTTP response is
  not ok.
\<close>

record backend =
  getDocumentUploadUrl :: "string \<Rightarrow> DocumentUploadRequest \<Rightarrow> DocumentUploadResponse option"
  uploadFileToS3 :: "string \<Rightarrow> File \<Rightarrow> bool"
  splitPDF :: "string \<Rightarrow> PDFSplitRequest \<Rightarrow> PDFSplitResponse option"

text \<open>
  The constants imported from \<open>constants/supportedAttachedFiles\<close> and the accepted media
  types of the current model (\<open>useModel().acceptMediaType\<close>); their values are not part
  of the component.
\<close>

record constants =
  MAX_SUPPORTED_FILE_SIZE_BYTES :: nat
  MAX_SUPPORTED_FILE_SIZE_MB :: nat
  BEDROCK_MAX_FILE_SIZE_BYTES :: nat
  BEDROCK_MAX_FILE_SIZE_MB :: real
  MAX_ATTACHED_FILES :: nat
  SUPPORTED_FILE_EXTENSIONS :: "string list"
  acceptMediaType :: "string list"

text \<open>
  The Zustand store of the component, the snackbar and the log of requests sent.
\<close>

record store =
  base64EncodedImages :: "string list"
  attachedFiles :: "AttachedFile list"
  s3AttachedFiles :: "S3AttachedFile list"
  snackbar :: "message list"
  calls :: "call list"

subsection \<open>Store operations\<close>

definition pushS3File :: "S3AttachedFile \<Rightarrow> store \<Rightarrow> store" where
  "pushS3File f st = st\<lparr>s3AttachedFiles := s3AttachedFiles st @ [f]\<rparr>"

definition open_snackbar :: "message \<Rightarrow> store \<Rightarrow> store" where
  "open_snackbar m st = st\<lparr>snackbar := snackbar st @ [m]\<rparr>"

definition record_call :: "call \<Rightarrow> store \<Rightarrow> store" where
  "record_call c st = st\<lparr>calls := calls st @ [c]\<rparr>"

subsection \<open>handleLargeFileUpload\<close>

text \<open>
  \<open>props.conversationId || 'temp'\<close>: the left operand when it is truthy, \<open>'temp'\<close> when
  it is \<open>undefined\<close> or the empty string.
\<close>

definition scope_of :: "string option \<Rightarrow> string" where
  "scope_of conversationId =
     (case conversationId of
        None \<Rightarrow> ''temp''
      | Some c \<Rightarrow> if c = [] then ''temp'' else c)"

definition upload_request :: "File \<Rightarrow> DocumentUploadRequest" where
  "upload_request file =
     \<lparr>filename = file_name file, content_type = file_type file, req_file_size = file_size file\<rparr>"

definition chunk_attachment :: "File \<Rightarrow> PDFSplitChunk \<Rightarrow> S3AttachedFile" where
  "chunk_attachment file chunk =
     \<lparr>att_name = chunk_fileName chunk, att_type = file_type file,
      att_size = chunk_sizeBytes chunk, att_s3Key = chunk_s3Key chunk\<rparr>"

text \<open>
  The body of the \<open>try\<close> block, with its two branches as the component writes them.
  Every \<open>throw\<close> of a request ends in the \<open>catch\<close>, which opens the
  \<open>fileUploadFailed\<close> message and leaves what was done before as it is.
  \<open>conversationId\<close> is \<open>props.conversationId\<close> as the closure of the callback holds it,
  that is, of the render in which \<open>useCallback\<close> kept this callback.
\<close>

definition handleLargeFileUpload ::
  "constants \<Rightarrow> backend \<Rightarrow> string option \<Rightarrow> File \<Rightarrow> bool \<Rightarrow> store \<Rightarrow> store" where
  "handleLargeFileUpload k be conversationId file shouldSplit st =
     (if shouldSplit then
        (let scope = scope_of conversationId;
             req = upload_request file;
             st1 = record_call (GetDocumentUploadUrl scope req) st
         in case getDocumentUploadUrl be scope req of
              None \<Rightarrow> open_snackbar FileUploadFailed st1
            | Some uploadResponse \<Rightarrow>
                (let st2 = record_call (UploadFileToS3 (uploadUrl uploadResponse) file) st1
                 in if \<not> uploadFileToS3 be (uploadUrl uploadResponse) file
                    then open_snackbar FileUploadFailed st2
                    else
                      (let sreq = \<lparr>s3_key = s3Key uploadResponse,
                                   max_size_mb = Some (BEDROCK_MAX_FILE_SIZE_MB k)\<rparr>;
                           st3 = record_call (SplitPDF scope sreq) st2
                       in case splitPDF be scope sreq of
                            None \<Rightarrow> open_snackbar FileUploadFailed st3
                          | Some splitResponse \<Rightarrow>
                              open_snackbar (PdfSplit (totalChunks splitResponse))
                                (fold (\<lambda>chunk. pushS3File (chunk_attachment file chunk))
                                   (chunks splitResponse) st3))))
      else
        (let scope = scope_of conversationId;
             req = upload_request file;
             st1 = record_call (GetDocumentUploadUrl scope req) st
         in case getDocumentUploadUrl be scope req of
              None \<Rightarrow> open_snackbar FileUploadFailed st1
            | Some uploadResponse \<Rightarrow>
                (let st2 = record_call (UploadFileToS3 (uploadUrl uploadResponse) file) st1
                 in if \<not> uploadFileToS3 be (uploadUrl uploadResponse) file
                    then open_snackbar FileUploadFailed st2
                    else
                      pushS3File
                        \<lparr>att_name = Some (file_name file), att_type = file_type file,
                         att_size = file_size file, att_s3Key = s3Key uploadResponse\<rparr> st2)))"

subsection \<open>handleAttachedFileRead\<close>

definition handleAttachedFileRead ::
  "constants \<Rightarrow> backend \<Rightarrow> string option \<Rightarrow> File \<Rightarrow> store \<Rightarrow> store" where
  "handleAttachedFileRead k be conversationId file st =
     (if file_size file > MAX_SUPPORTED_FILE_SIZE_BYTES k
      then open_snackbar (FileSizeExceeded (MAX_SUPPORTED_FILE_SIZE_MB k)) st
      else
        (let shouldSplitPDF =
               (file_type file = ''application/pdf'' \<and> file_size file > BEDROCK_MAX_FILE_SIZE_BYTES k)
         in handleLargeFileUpload k be conversationId file shouldSplitPDF st))"

subsection \<open>onChangeFile\<close>

text \<open>\<open>name.endsWith(extension)\<close> for some extension of the list.\<close>

definition has_extension :: "string list \<Rightarrow> string \<Rightarrow> bool" where
  "has_extension exts name = list_ex (\<lambda>extension. suffix extension name) exts"

text \<open>
  What \<open>onChangeFile\<close> starts for one file. Neither call is awaited: the handler only
  starts them.
\<close>

datatype task = AttachedFileRead File | EncodeAndPushImage File

text \<open>The second loop of \<open>onChangeFile\<close>: the task list and the store, file by file.\<close>

fun dispatch_files :: "constants \<Rightarrow> File list \<Rightarrow> task list \<times> store \<Rightarrow> task list \<times> store" where
  "dispatch_files k [] acc = acc"
| "dispatch_files k (file # files) (tasks, st) =
     (if has_extension (SUPPORTED_FILE_EXTENSIONS k) (file_name file)
      then dispatch_files k files (tasks @ [AttachedFileRead file], st)
      else if has_extension (acceptMediaType k) (file_name file)
      then dispatch_files k files (tasks @ [EncodeAndPushImage file], st)
      else dispatch_files k files (tasks, open_snackbar UnsupportedFileFormat st))"

text \<open>The first loop: the selected files with a supported document extension.\<close>

fun newAttachedFilesCount :: "constants \<Rightarrow> File list \<Rightarrow> nat" where
  "newAttachedFilesCount k [] = 0"
| "newAttachedFilesCount k (file # files) =
     (if has_extension (SUPPORTED_FILE_EXTENSIONS k) (file_name file)
      then Suc (newAttachedFilesCount k files)
      else newAttachedFilesCount k files)"

definition currentAttachedFilesCount :: "constants \<Rightarrow> store \<Rightarrow> nat" where
  "currentAttachedFilesCount k st =
     length (filter (\<lambda>file. has_extension (SUPPORTED_FILE_EXTENSIONS k) (txt_name file))
               (attachedFiles st))
     + length (s3AttachedFiles st)"

definition onChangeFile :: "constants \<Rightarrow> File list \<Rightarrow> store \<Rightarrow> task list \<times> store" where
  "onChangeFile k fileList st =
     (if currentAttachedFilesCount k st + newAttachedFilesCount k fileList > MAX_ATTACHED_FILES k
      then ([], open_snackbar (FileCountExceeded (MAX_ATTACHED_FILES k)) st)
      else dispatch_files k fileList ([], st))"

section \<open>Download access check (backend download route)\<close>

text \<open>Modelled from the spec: the error taxonomy of its section 7.\<close>

datatype error =
    ValidationError
  | AccessDenied
  | CorruptDocument
  | ExtractionFailed
  | TransientIOError

text \<open>
  The two f-strings of the download route:
  \<open>f"conversations/{current_user.id}/{conversation_id}/documents/"\<close> and
  \<open>f"conversations/{current_user.id}/temp/documents/"\<close>.
\<close>

definition valid_prefixes :: "string \<Rightarrow> string \<Rightarrow> string list" where
  "valid_prefixes user_id conversation_id =
     [''conversations/'' @ user_id @ ''/'' @ conversation_id @ ''/documents/'',
      ''conversations/'' @ user_id @ ''/temp/documents/'']"

text \<open>
  Modelled from the spec: the body of the \<open>if\<close> that follows the prefix test is not
  part of the quoted route; the download-handle request is rejected there with
  \<open>AccessDenied\<close>.
\<close>

definition reject_download :: error where
  "reject_download = AccessDenied"

text \<open>
  \<open>if not any(s3_key.startswith(prefix) for prefix in valid_prefixes):\<close>, the key
  being the argument \<open>key\<close> here. A key that passes the test goes on to the rest of
  the route.
\<close>

definition check_download_access :: "string \<Rightarrow> string \<Rightarrow> string \<Rightarrow> error + unit" where
  "check_download_access user_id conversation_id key =
     (if \<not> list_ex (\<lambda>p. prefix p key) (valid_prefixes user_id conversation_id)
      then Inl reject_download
      else Inr ())"

text \<open>
  The prefixes as the specification writes them, \<open>{ownerId}/{scopeId}/documents/\<close> and
  \<open>{ownerId}/temp/documents/\<close>, for comparison with \<open>valid_prefixes\<close>.
\<close>

definition spec_key_prefixes :: "string \<Rightarrow> string \<Rightarrow> string list" where
  "spec_key_prefixes ownerId scopeId =
     [ownerId @ ''/'' @ scopeId @ ''/documents/'', ownerId @ ''/temp/documents/'']"

definition has_spec_prefix :: "string \<Rightarrow> string \<Rightarrow> string \<Rightarrow> bool" where
  "has_spec_prefix ownerId scopeId key =
     list_ex (\<lambda>p. prefix p key) (spec_key_prefixes ownerId scopeId)"


section \<open>Split request and response (utils/s3Documents.ts)\<close>









section \<open>PDF Splitter\<close>

text \<open>
  Modelled from the spec: \<open>split_pdf_by_size\<close> of \<open>backend/app/utils_pdf.py\<close> is not
  among the sources. A document is either paginated, given by the serialized size of
  each page in order, or cannot be parsed.
\<close>

datatype document = Paginated "nat list" | Unparseable

text \<open>
  Modelled from the spec: a chunk with its parent, ordinal, inclusive page range, size
  and storage key.
\<close>

record SplitChunk =
  parentReference :: string
  ordinal :: nat
  pageRange :: "nat \<times> nat"
  split_sizeBytes :: nat
  storageKey :: string

text \<open>
  Modelled from the spec: closing the current chunk, which starts at page \<open>first\<close> and
  holds \<open>n\<close> pages of \<open>running\<close> bytes in all; its key is the one issued for its ordinal.
\<close>

definition close_chunk :: "string \<Rightarrow> (nat \<Rightarrow> string) \<Rightarrow> nat \<Rightarrow> nat \<Rightarrow> nat \<Rightarrow> nat \<Rightarrow> SplitChunk" where
  "close_chunk parent key_of ord first n running =
     \<lparr>parentReference = parent, ordinal = ord, pageRange = (first, first + n - 1),
      split_sizeBytes = running, storageKey = key_of ord\<rparr>"

text \<open>
  Modelled from the spec: for each page in order, accumulate pages into the current
  chunk while the running total stays at most \<open>ceilingBytes\<close>; when adding the next
  page would exceed the ceiling, close the current chunk and start a new one with that
  page. The current chunk starts at page \<open>first\<close>, holds \<open>n\<close> pages and \<open>running\<close>
  bytes (the running total);
  an empty current chunk takes the page whatever its size, and is never closed.
\<close>

fun split_pages ::
  "string \<Rightarrow> (nat \<Rightarrow> string) \<Rightarrow> nat \<Rightarrow> nat \<Rightarrow> nat \<Rightarrow> nat \<Rightarrow> nat \<Rightarrow> nat list \<Rightarrow> SplitChunk list" where
  "split_pages parent key_of ceilingBytes ord first n running [] =
     (if n = 0 then [] else [close_chunk parent key_of ord first n running])"
| "split_pages parent key_of ceilingBytes ord first n running (page # pages) =
     (if 0 < n \<and> ceilingBytes < running + page
      then close_chunk parent key_of ord first n running
             # split_pages parent key_of ceilingBytes (Suc ord) (first + n) 1 page pages
      else split_pages parent key_of ceilingBytes ord first (Suc n) (running + page) pages)"

text \<open>
  Modelled from the spec: \<open>Split(reference, ceilingBytes)\<close>, with \<open>CorruptDocument\<close> when
  the source cannot be parsed as paginated content. Pages are numbered from 1, chunks
  from 0.
\<close>

definition Split :: "string \<Rightarrow> (nat \<Rightarrow> string) \<Rightarrow> document \<Rightarrow> nat \<Rightarrow> error + SplitChunk list" where
  "Split parent key_of doc ceilingBytes =
     (case doc of
        Unparseable \<Rightarrow> Inl CorruptDocument
      | Paginated sizes \<Rightarrow> Inr (split_pages parent key_of ceilingBytes 0 1 0 0 sizes))"

text \<open>Modelled from the spec: the page numbers of a chunk's inclusive page range.\<close>

definition chunk_page_numbers :: "SplitChunk \<Rightarrow> nat list" where
  "chunk_page_numbers ch = [fst (pageRange ch) ..< Suc (snd (pageRange ch))]"

text \<open>Modelled from the spec: the sizes of the pages that a chunk's page range covers.\<close>

definition chunk_page_sizes :: "nat list \<Rightarrow> SplitChunk \<Rightarrow> nat list" where
  "chunk_page_sizes sizes ch =
     take (Suc (snd (pageRange ch)) - fst (pageRange ch)) (drop (fst (pageRange ch) - 1) sizes)"

section \<open>OCR Extractor\<close>

text \<open>
  Modelled from the spec: \<open>backend/app/utils_textract.py\<close> is not among the sources.
  The job record, its five states, and the blocks that survive the token-level filter.
\<close>

datatype job_state = Submitted | Polling | Succeeded | Failed | TimedOut

datatype block_kind = Line | Header | Paragraph | ListItem | Table

datatype raw_kind = Token | Layout block_kind

record RawBlock =
  raw_block_kind :: raw_kind
  raw_text :: string
  raw_confidence :: real
  raw_pageNumber :: nat
  raw_readingOrder :: nat

record ExtractionBlock =
  kind :: block_kind
  block_text :: string
  confidence :: real
  pageNumber :: nat
  readingOrder :: nat

record ExtractionJob =
  job_id :: string
  targetReference :: string
  state :: job_state
  blocks :: "ExtractionBlock list"

text \<open>Modelled from the spec: what one status query of the remote analysis service answers.\<close>

datatype remote_status = InProgress | JobSucceeded "RawBlock list" | JobFailed

text \<open>Modelled from the spec: the three states from which no transition leaves.\<close>

definition terminal :: "job_state \<Rightarrow> bool" where
  "terminal s = (s = Succeeded \<or> s = Failed \<or> s = TimedOut)"

text \<open>Modelled from the spec: discard token-level blocks, keep line, layout and table blocks.\<close>

fun keep_blocks :: "RawBlock list \<Rightarrow> ExtractionBlock list" where
  "keep_blocks [] = []"
| "keep_blocks (b # bs) =
     (case raw_block_kind b of
        Token \<Rightarrow> keep_blocks bs
      | Layout k \<Rightarrow>
          \<lparr>kind = k, block_text = raw_text b, confidence = raw_confidence b,
           pageNumber = raw_pageNumber b, readingOrder = raw_readingOrder b\<rparr> # keep_blocks bs)"

text \<open>
  Modelled from the spec: one step of the machine
  \<open>Submitted \<rightarrow> Polling \<rightarrow> {Succeeded | Failed | TimedOut}\<close>. A step reads the injected
  clock (time elapsed since submission) and, while polling within the wall-clock
  ceiling, the answer of one status query.
\<close>

definition step :: "nat \<Rightarrow> ExtractionJob \<Rightarrow> nat \<times> remote_status \<Rightarrow> ExtractionJob" where
  "step timeout job ev =
     (case state job of
        Submitted \<Rightarrow> job\<lparr>state := Polling\<rparr>
      | Polling \<Rightarrow>
          (if timeout \<le> fst ev then job\<lparr>state := TimedOut\<rparr>
           else case snd ev of
                  InProgress \<Rightarrow> job
                | JobSucceeded raw \<Rightarrow> job\<lparr>state := Succeeded, blocks := keep_blocks raw\<rparr>
                | JobFailed \<Rightarrow> job\<lparr>state := Failed\<rparr>)
      | Succeeded \<Rightarrow> job
      | Failed \<Rightarrow> job
      | TimedOut \<Rightarrow> job)"

text \<open>Modelled from the spec: \<open>Submit(reference)\<close> creates the job in state \<open>Submitted\<close>.\<close>

definition Submit :: "string \<Rightarrow> string \<Rightarrow> ExtractionJob" where
  "Submit jobId reference =
     \<lparr>job_id = jobId, targetReference = reference, state = Submitted, blocks = []\<rparr>"

text \<open>Modelled from the spec: a sequence of steps, one per clock reading and status answer.\<close>

definition run :: "nat \<Rightarrow> (nat \<times> remote_status) list \<Rightarrow> ExtractionJob \<Rightarrow> ExtractionJob" where
  "run timeout evs job = fold (\<lambda>ev j. step timeout j ev) evs job"

section \<open>Attachment Resolver\<close>

text \<open>
  Modelled from the spec: \<open>resolve_s3_attachments_in_messages\<close> of
  \<open>backend/app/usecases/chat.py\<close> is not among the sources.
\<close>

text \<open>Modelled from the spec: the reference to a stored object, and the attachment.\<close>

record ObjectReference =
  ref_storageKey :: string
  ownerId :: string
  scopeId :: string
  ref_sizeBytes :: nat

datatype origin = InlineBytes string | ObjectRef ObjectReference

record Attachment =
  fileName :: string
  mediaType :: string
  sizeBytes :: nat
  att_origin :: origin
  requiresOcr :: bool

datatype route = Inline string | ObjectBinary ObjectReference | ObjectOCR ObjectReference

datatype content_block =
    InlineBinary string string string
  | TextBlock string string string

text \<open>
  Modelled from the spec: the collaborators of the resolver, the fetch of an object's bytes through a download
  handle, the OCR Extractor, and which media types are scanned-document types.
\<close>

record services =
  fetch :: "ObjectReference \<Rightarrow> error + string"
  extract_text :: "ObjectReference \<Rightarrow> error + string"
  scanned_type :: "string \<Rightarrow> bool"

text \<open>Modelled from the spec: each attachment takes exactly one of the three paths.\<close>

definition classify :: "services \<Rightarrow> Attachment \<Rightarrow> route" where
  "classify srv a =
     (case att_origin a of
        InlineBytes bytes \<Rightarrow> Inline bytes
      | ObjectRef r \<Rightarrow>
          if requiresOcr a \<and> scanned_type srv (mediaType a) then ObjectOCR r else ObjectBinary r)"

text \<open>
  Modelled from the spec: the resolved block of one attachment, \<open>None\<close> when the
  attachment is dropped (extraction failed, or the object could not be fetched).
\<close>

definition resolve_one :: "services \<Rightarrow> Attachment \<Rightarrow> content_block option" where
  "resolve_one srv a =
     (case classify srv a of
        Inline bytes \<Rightarrow> Some (InlineBinary (fileName a) (mediaType a) bytes)
      | ObjectBinary r \<Rightarrow>
          (case fetch srv r of
             Inl e \<Rightarrow> None
           | Inr bytes \<Rightarrow> Some (InlineBinary (fileName a) (mediaType a) bytes))
      | ObjectOCR r \<Rightarrow>
          (case extract_text srv r of
             Inl e \<Rightarrow> None
           | Inr text \<Rightarrow> Some (TextBlock (fileName a) (mediaType a) text)))"

text \<open>
  Modelled from the spec: the ordered join. Each task writes its result into the slot
  of its attachment's position, in whatever order the tasks complete; the slots are
  then compacted, keeping their relative order.
\<close>

datatype slot = Pending | Done "content_block option"

text \<open>Modelled from the spec: the task of position \<open>i\<close> completes and fills its slot.\<close>

definition finish_task :: "services \<Rightarrow> Attachment list \<Rightarrow> nat \<Rightarrow> slot list \<Rightarrow> slot list" where
  "finish_task srv atts i slots =
     (if i < length atts then slots[i := Done (resolve_one srv (atts ! i))] else slots)"

text \<open>Modelled from the spec: filter and compact the slots, keeping relative order.\<close>

fun compact_slots :: "slot list \<Rightarrow> content_block list" where
  "compact_slots [] = []"
| "compact_slots (Pending # slots) = compact_slots slots"
| "compact_slots (Done None # slots) = compact_slots slots"
| "compact_slots (Done (Some b) # slots) = b # compact_slots slots"

text \<open>
  Modelled from the spec: the resolver on one message; \<open>completion\<close> lists the positions
  in the order in which their tasks complete.
\<close>

definition resolve_message :: "services \<Rightarrow> nat list \<Rightarrow> Attachment list \<Rightarrow> content_block list" where
  "resolve_message srv completion atts =
     compact_slots (fold (finish_task srv atts) completion (replicate (length atts) Pending))"

text \<open>
  Modelled from the spec: resolution one attachment after the other, in the original
  order.
\<close>

definition resolve_in_order :: "services \<Rightarrow> Attachment list \<Rightarrow> content_block list" where
  "resolve_in_order srv atts = List.map_filter (resolve_one srv) atts"

section \<open>Example data\<close>

text \<open>Concrete values on which the properties below are evaluated.\<close>

definition example_constants :: constants where
  "example_constants =
     \<lparr>MAX_SUPPORTED_FILE_SIZE_BYTES = 23068672, MAX_SUPPORTED_FILE_SIZE_MB = 22,
      BEDROCK_MAX_FILE_SIZE_BYTES = 4718592, BEDROCK_MAX_FILE_SIZE_MB = 4.5,
      MAX_ATTACHED_FILES = 2, SUPPORTED_FILE_EXTENSIONS = [''.pdf'', ''.txt''],
      acceptMediaType = [''.png'']\<rparr>"

definition example_chunks :: "PDFSplitChunk list" where
  "example_chunks =
     [\<lparr>chunkIndex = 0, chunk_s3Key = ''k/part1.pdf'', pageCount = 3, chunk_sizeBytes = 4000000,
       base64Content = '''', chunk_fileName = Some ''a_part1.pdf''\<rparr>,
      \<lparr>chunkIndex = 1, chunk_s3Key = ''k/part2.pdf'', pageCount = 2, chunk_sizeBytes = 1000000,
       base64Content = '''', chunk_fileName = Some ''a_part2.pdf''\<rparr>]"

definition example_backend :: backend where
  "example_backend =
     \<lparr>getDocumentUploadUrl = (\<lambda>scope req. Some \<lparr>uploadUrl = ''https://put'', s3Key = ''k/a.pdf'', expiresIn = 3600\<rparr>),
      uploadFileToS3 = (\<lambda>url f. True),
      splitPDF = (\<lambda>scope req. Some \<lparr>chunks = example_chunks, totalChunks = 2\<rparr>)\<rparr>"

definition empty_store :: store where
  "empty_store = \<lparr>base64EncodedImages = [], attachedFiles = [], s3AttachedFiles = [], snackbar = [], calls = []\<rparr>"

definition small_pdf :: File where
  "small_pdf = \<lparr>file_name = ''s.pdf'', file_type = ''application/pdf'', file_size = 1000\<rparr>"

definition large_pdf :: File where
  "large_pdf = \<lparr>file_name = ''a.pdf'', file_type = ''application/pdf'', file_size = 5000000\<rparr>"

definition huge_pdf :: File where
  "huge_pdf = \<lparr>file_name = ''h.pdf'', file_type = ''application/pdf'', file_size = 23068673\<rparr>"

definition picture :: File where
  "picture = \<lparr>file_name = ''p.png'', file_type = ''image/png'', file_size = 10\<rparr>"


definition two_attached :: store where
  "two_attached = empty_store
     \<lparr>s3AttachedFiles :=
        [\<lparr>att_name = Some ''x.pdf'', att_type = ''application/pdf'', att_size = 1, att_s3Key = ''k/x.pdf''\<rparr>,
         \<lparr>att_name = Some ''y.pdf'', att_type = ''application/pdf'', att_size = 1, att_s3Key = ''k/y.pdf''\<rparr>]\<rparr>"

definition example_key_of :: "nat \<Rightarrow> string" where
  "example_key_of ord = (if ord = 0 then ''doc/part0.pdf'' else ''doc/partN.pdf'')"

definition ten_pages :: "nat list" where
  "ten_pages =
     [307200, 307200, 307200, 307200, 307200, 307200, 307200, 307200, 307200, 307200]"

definition example_events :: "(nat \<times> remote_status) list" where
  "example_events =
     [(0, InProgress), (5000, InProgress), (10000, JobSucceeded []), (15000, JobFailed),
      (400000, InProgress)]"

definition example_services :: services where
  "example_services =
     \<lparr>fetch = (\<lambda>r. Inr (''bytes of '' @ ref_storageKey r)),
      extract_text = (\<lambda>r. Inl ExtractionFailed),
      scanned_type = (\<lambda>m. m = ''application/pdf'')\<rparr>"

definition first_attachment :: Attachment where
  "first_attachment =
     \<lparr>fileName = ''a.txt'', mediaType = ''text/plain'', sizeBytes = 5,
      att_origin = InlineBytes ''hello'', requiresOcr = False\<rparr>"

definition second_reference :: ObjectReference where
  "second_reference =
     \<lparr>ref_storageKey = ''u1/c1/documents/scan.pdf'', ownerId = ''u1'', scopeId = ''c1'',
      ref_sizeBytes = 900000\<rparr>"

definition second_attachment :: Attachment where
  "second_attachment =
     \<lparr>fileName = ''scan.pdf'', mediaType = ''application/pdf'', sizeBytes = 900000,
      att_origin = ObjectRef second_reference, requiresOcr = True\<rparr>"

definition third_attachment :: Attachment where
  "third_attachment =
     \<lparr>fileName = ''c.pdf'', mediaType = ''application/pdf'', sizeBytes = 700,
      att_origin = ObjectRef \<lparr>ref_storageKey = ''u1/c1/documents/c.pdf'', ownerId = ''u1'',
        scopeId = ''c1'', ref_sizeBytes = 700\<rparr>, requiresOcr = False\<rparr>"

section \<open>Properties of the upload path\<close>

lemma fold_pushS3File:
  "fold (\<lambda>chunk. pushS3File (g chunk)) cs st =
     st\<lparr>s3AttachedFiles := s3AttachedFiles st @ map g cs\<rparr>"
  by (induction cs arbitrary: st) (simp_all add: pushS3File_def)

lemma calls_pushS3File [simp]: "calls (pushS3File f st) = calls st"
  by (simp add: pushS3File_def)

lemma calls_open_snackbar [simp]: "calls (open_snackbar m st) = calls st"
  by (simp add: open_snackbar_def)

lemma calls_record_call [simp]: "calls (record_call c st) = calls st @ [c]"
  by (simp add: record_call_def)

lemma s3_open_snackbar [simp]: "s3AttachedFiles (open_snackbar m st) = s3AttachedFiles st"
  by (simp add: open_snackbar_def)

lemma s3_record_call [simp]: "s3AttachedFiles (record_call c st) = s3AttachedFiles st"
  by (simp add: record_call_def)

lemma s3_pushS3File [simp]: "s3AttachedFiles (pushS3File f st) = s3AttachedFiles st @ [f]"
  by (simp add: pushS3File_def)

lemma handleLargeFileUpload_first_call:
  "\<exists>rest. calls (handleLargeFileUpload k be cid f b st) =
     calls st @ GetDocumentUploadUrl (scope_of cid) (upload_request f) # rest"
  by (simp add: handleLargeFileUpload_def Let_def fold_pushS3File split: option.split)





lemma snackbar_pushS3File [simp]: "snackbar (pushS3File f st) = snackbar st"
  by (simp add: pushS3File_def)

lemma snackbar_record_call [simp]: "snackbar (record_call c st) = snackbar st"
  by (simp add: record_call_def)

lemma snackbar_open_snackbar [simp]: "snackbar (open_snackbar m st) = snackbar st @ [m]"
  by (simp add: open_snackbar_def)






text \<open>
  Claim C6. A file whose size exceeds \<open>MAX_SUPPORTED_FILE_SIZE_BYTES\<close> is rejected with
  the \<open>fileSizeExceeded\<close> error message: no request is sent (no upload handle, no
  upload) and no attachment is added. A file at or below that size goes on to
  \<open>handleLargeFileUpload\<close>, whose first action is the upload-handle request.
\<close>

theorem handleAttachedFileRead_size_limit:
  "(file_size f > MAX_SUPPORTED_FILE_SIZE_BYTES k \<longrightarrow>
      handleAttachedFileRead k be cid f st =
        st\<lparr>snackbar := snackbar st @ [FileSizeExceeded (MAX_SUPPORTED_FILE_SIZE_MB k)]\<rparr>
      \<and> calls (handleAttachedFileRead k be cid f st) = calls st
      \<and> s3AttachedFiles (handleAttachedFileRead k be cid f st) = s3AttachedFiles st
      \<and> attachedFiles (handleAttachedFileRead k be cid f st) = attachedFiles st)
   \<and> (file_size f \<le> MAX_SUPPORTED_FILE_SIZE_BYTES k \<longrightarrow>
      handleAttachedFileRead k be cid f st =
        handleLargeFileUpload k be cid f
          (file_type f = ''application/pdf'' \<and> file_size f > BEDROCK_MAX_FILE_SIZE_BYTES k) st
      \<and> (\<exists>rest. calls (handleAttachedFileRead k be cid f st) =
            calls st @ GetDocumentUploadUrl (scope_of cid) (upload_request f) # rest))"
  using handleLargeFileUpload_first_call [of k be cid f _ st]
  by (auto simp add: handleAttachedFileRead_def open_snackbar_def Let_def)

theorem handleAttachedFileRead_size_limit_witness:
  "file_size huge_pdf > MAX_SUPPORTED_FILE_SIZE_BYTES example_constants
   \<and> calls (handleAttachedFileRead example_constants example_backend None huge_pdf empty_store) = []
   \<and> s3AttachedFiles (handleAttachedFileRead example_constants example_backend None huge_pdf empty_store) = []
   \<and> file_size small_pdf \<le> MAX_SUPPORTED_FILE_SIZE_BYTES example_constants
   \<and> (\<exists>rest. calls (handleAttachedFileRead example_constants example_backend None small_pdf empty_store) =
         GetDocumentUploadUrl ''temp'' (upload_request small_pdf) # rest)"
proof -
  have big: "file_size huge_pdf > MAX_SUPPORTED_FILE_SIZE_BYTES example_constants"
    by (simp add: huge_pdf_def example_constants_def)
  have small: "file_size small_pdf \<le> MAX_SUPPORTED_FILE_SIZE_BYTES example_constants"
    by (simp add: small_pdf_def example_constants_def)
  from big handleAttachedFileRead_size_limit
      [of example_constants huge_pdf example_backend None empty_store]
  have rejected:
    "calls (handleAttachedFileRead example_constants example_backend None huge_pdf empty_store)
       = calls empty_store
     \<and> s3AttachedFiles (handleAttachedFileRead example_constants example_backend None huge_pdf empty_store)
       = s3AttachedFiles empty_store"
    by blast
  from small handleAttachedFileRead_size_limit
      [of example_constants small_pdf example_backend None empty_store]
  have proceeds:
    "\<exists>rest. calls (handleAttachedFileRead example_constants example_backend None small_pdf empty_store) =
       calls empty_store @ GetDocumentUploadUrl (scope_of None) (upload_request small_pdf) # rest"
    by blast
  have "calls empty_store = []" and "s3AttachedFiles empty_store = []"
    and "scope_of None = ''temp''"
    by (simp_all add: empty_store_def scope_of_def)
  with big small rejected proceeds show ?thesis
    by simp
qed




text \<open>
  Claim C9. After a successful split, exactly one S3 attachment is appended per chunk
  of the response, in the response's order; its name is the chunk's \<open>fileName\<close>, its
  size the chunk's \<open>sizeBytes\<close>, its key the chunk's \<open>s3Key\<close>, and its media type the
  type of the original file.
\<close>

theorem split_chunks_become_attachments:
  assumes "getDocumentUploadUrl be (scope_of conversationId) (upload_request f) = Some up"
    and "uploadFileToS3 be (uploadUrl up) f"
    and "splitPDF be (scope_of conversationId)
           \<lparr>s3_key = s3Key up, max_size_mb = Some (BEDROCK_MAX_FILE_SIZE_MB k)\<rparr> = Some resp"
  shows "s3AttachedFiles (handleLargeFileUpload k be conversationId f True st) =
           s3AttachedFiles st @
           map (\<lambda>chunk. \<lparr>att_name = chunk_fileName chunk, att_type = file_type f,
                          att_size = chunk_sizeBytes chunk, att_s3Key = chunk_s3Key chunk\<rparr>)
               (chunks resp)"
  using assms
  by (simp add: handleLargeFileUpload_def Let_def fold_pushS3File chunk_attachment_def)

theorem split_chunks_become_attachments_witness:
  "s3AttachedFiles (handleLargeFileUpload example_constants example_backend None large_pdf True empty_store) =
     [\<lparr>att_name = Some ''a_part1.pdf'', att_type = ''application/pdf'', att_size = 4000000,
       att_s3Key = ''k/part1.pdf''\<rparr>,
      \<lparr>att_name = Some ''a_part2.pdf'', att_type = ''application/pdf'', att_size = 1000000,
       att_s3Key = ''k/part2.pdf''\<rparr>]"
  using split_chunks_become_attachments [of example_backend None large_pdf
      "\<lparr>uploadUrl = ''https://put'', s3Key = ''k/a.pdf'', expiresIn = 3600\<rparr>"
      example_constants "\<lparr>chunks = example_chunks, totalChunks = 2\<rparr>" empty_store]
  by (simp add: example_backend_def example_chunks_def empty_store_def large_pdf_def)

lemma newAttachedFilesCount_filter:
  "newAttachedFilesCount k fileList =
     length (filter (\<lambda>f. has_extension (SUPPORTED_FILE_EXTENSIONS k) (file_name f)) fileList)"
  by (induction fileList) simp_all

lemma dispatch_files_tasks:
  "fst (dispatch_files k fileList (tasks, st)) =
     tasks @ List.map_filter
       (\<lambda>f. if has_extension (SUPPORTED_FILE_EXTENSIONS k) (file_name f) then Some (AttachedFileRead f)
            else if has_extension (acceptMediaType k) (file_name f) then Some (EncodeAndPushImage f)
            else None) fileList"
  by (induction fileList arbitrary: tasks st) simp_all

lemma dispatch_files_store:
  "base64EncodedImages (snd (dispatch_files k fileList (tasks, st))) = base64EncodedImages st
   \<and> attachedFiles (snd (dispatch_files k fileList (tasks, st))) = attachedFiles st
   \<and> s3AttachedFiles (snd (dispatch_files k fileList (tasks, st))) = s3AttachedFiles st
   \<and> calls (snd (dispatch_files k fileList (tasks, st))) = calls st"
  by (induction fileList arbitrary: tasks st) (simp_all add: open_snackbar_def)

text \<open>
  Claim C10. When the attached documents (regular ones with a supported extension, plus
  all S3 ones) and the newly selected files with a supported extension together exceed
  \<open>MAX_ATTACHED_FILES\<close>, \<open>onChangeFile\<close> starts no task at all, for images neither, and
  only opens the \<open>fileCountExceeded\<close> message. Otherwise it starts, in selection order,
  the upload of every file with a supported extension and the image path of every other
  file with an accepted media extension. In both cases the handler itself leaves the
  attachments of the store and the request log as they are.
\<close>

theorem onChangeFile_count_limit:
  "(length (filter (\<lambda>a. has_extension (SUPPORTED_FILE_EXTENSIONS k) (txt_name a)) (attachedFiles st))
      + length (s3AttachedFiles st)
      + length (filter (\<lambda>f. has_extension (SUPPORTED_FILE_EXTENSIONS k) (file_name f)) fileList)
      > MAX_ATTACHED_FILES k \<longrightarrow>
        onChangeFile k fileList st =
          ([], st\<lparr>snackbar := snackbar st @ [FileCountExceeded (MAX_ATTACHED_FILES k)]\<rparr>))
   \<and> (length (filter (\<lambda>a. has_extension (SUPPORTED_FILE_EXTENSIONS k) (txt_name a)) (attachedFiles st))
      + length (s3AttachedFiles st)
      + length (filter (\<lambda>f. has_extension (SUPPORTED_FILE_EXTENSIONS k) (file_name f)) fileList)
      \<le> MAX_ATTACHED_FILES k \<longrightarrow>
        fst (onChangeFile k fileList st) =
          List.map_filter
            (\<lambda>f. if has_extension (SUPPORTED_FILE_EXTENSIONS k) (file_name f)
                 then Some (AttachedFileRead f)
                 else if has_extension (acceptMediaType k) (file_name f)
                 then Some (EncodeAndPushImage f)
                 else None) fileList)
   \<and> base64EncodedImages (snd (onChangeFile k fileList st)) = base64EncodedImages st
   \<and> attachedFiles (snd (onChangeFile k fileList st)) = attachedFiles st
   \<and> s3AttachedFiles (snd (onChangeFile k fileList st)) = s3AttachedFiles st
   \<and> calls (snd (onChangeFile k fileList st)) = calls st"
  using dispatch_files_tasks [of k fileList "[]" st] dispatch_files_store [of k fileList "[]" st]
  by (simp add: onChangeFile_def currentAttachedFilesCount_def newAttachedFilesCount_filter
      open_snackbar_def)

theorem onChangeFile_count_limit_witness:
  "onChangeFile example_constants [picture, small_pdf] two_attached =
     ([], two_attached\<lparr>snackbar := [FileCountExceeded 2]\<rparr>)
   \<and> fst (onChangeFile example_constants [picture, small_pdf] empty_store) =
     [EncodeAndPushImage picture, AttachedFileRead small_pdf]"
proof -
  have ext:
    "has_extension (SUPPORTED_FILE_EXTENSIONS example_constants) (file_name small_pdf)"
    "\<not> has_extension (SUPPORTED_FILE_EXTENSIONS example_constants) (file_name picture)"
    "has_extension (acceptMediaType example_constants) (file_name picture)"
    by (simp_all add: has_extension_def example_constants_def small_pdf_def picture_def
        suffix_def)
  have lim: "MAX_ATTACHED_FILES example_constants = 2"
    by (simp add: example_constants_def)
  show ?thesis
    using onChangeFile_count_limit [of example_constants two_attached "[picture, small_pdf]"]
      onChangeFile_count_limit [of example_constants empty_store "[picture, small_pdf]"]
    by (simp add: ext lim two_attached_def empty_store_def)
qed




section \<open>Properties of the download access check\<close>

text \<open>
  Claim C1, as stated: a key that begins with \<open>{ownerId}/{scopeId}/documents/\<close> would be
  granted access. The route denies it, because its prefixes start with
  \<open>conversations/\<close>.
\<close>

theorem download_access_counterexample:
  "has_spec_prefix ''u1'' ''c1'' ''u1/c1/documents/a.pdf''
   \<and> check_download_access ''u1'' ''c1'' ''u1/c1/documents/a.pdf'' = Inl AccessDenied"
  by (simp add: has_spec_prefix_def spec_key_prefixes_def check_download_access_def
      valid_prefixes_def reject_download_def)

text \<open>
  Claim C1, amended. The request fails with \<open>AccessDenied\<close> when the key begins with
  neither \<open>conversations/{ownerId}/{scopeId}/documents/\<close> nor
  \<open>conversations/{ownerId}/temp/documents/\<close>, and passes the check when it begins with
  one of the two.
\<close>

theorem download_access_check:
  "(\<not> prefix (''conversations/'' @ user_id @ ''/'' @ conversation_id @ ''/documents/'') key
     \<and> \<not> prefix (''conversations/'' @ user_id @ ''/temp/documents/'') key
     \<longrightarrow> check_download_access user_id conversation_id key = Inl AccessDenied)
   \<and> (prefix (''conversations/'' @ user_id @ ''/'' @ conversation_id @ ''/documents/'') key
     \<or> prefix (''conversations/'' @ user_id @ ''/temp/documents/'') key
     \<longrightarrow> check_download_access user_id conversation_id key = Inr ())"
  by (simp add: check_download_access_def valid_prefixes_def reject_download_def)

theorem download_access_check_witness:
  "check_download_access ''u1'' ''c1'' ''conversations/u2/c1/documents/a.pdf'' = Inl AccessDenied
   \<and> check_download_access ''u1'' ''c1'' ''conversations/u1/c1/documents/a.pdf'' = Inr ()
   \<and> check_download_access ''u1'' ''c1'' ''conversations/u1/temp/documents/a.pdf'' = Inr ()"
  using download_access_check [of "''u1''" "''c1''" "''conversations/u2/c1/documents/a.pdf''"]
    download_access_check [of "''u1''" "''c1''" "''conversations/u1/c1/documents/a.pdf''"]
    download_access_check [of "''u1''" "''c1''" "''conversations/u1/temp/documents/a.pdf''"]
  by simp

section \<open>Properties of the PDF Splitter\<close>

lemma split_pages_close:
  "0 < n \<Longrightarrow> c < running + p \<Longrightarrow>
   split_pages parent key_of c ord first n running (p # ps) =
     close_chunk parent key_of ord first n running
       # split_pages parent key_of c (Suc ord) (first + n) 1 p ps"
  by simp

lemma split_pages_extend:
  "\<not> (0 < n \<and> c < running + p) \<Longrightarrow>
   split_pages parent key_of c ord first n running (p # ps) =
     split_pages parent key_of c ord first (Suc n) (running + p) ps"
  by auto

lemma chunk_page_numbers_close_chunk:
  "0 < n \<Longrightarrow> chunk_page_numbers (close_chunk parent key_of ord first n running) = [first ..< first + n]"
  by (simp add: chunk_page_numbers_def close_chunk_def)

lemma split_pages_page_numbers:
  "concat (map chunk_page_numbers (split_pages parent key_of c ord first n running ps)) =
     [first ..< first + n + length ps]"
proof (induction ps arbitrary: ord first n running)
  case Nil
  then show ?case
    by (simp add: chunk_page_numbers_close_chunk)
next
  case (Cons p ps)
  show ?case
  proof (cases "0 < n \<and> c < running + p")
    case True
    have "[first ..< first + n] @ [first + n ..< first + n + (1 + length ps)] =
            [first ..< first + n + (1 + length ps)]"
      by (metis upt_add_eq_append le_add1)
    with True Cons [of "Suc ord" "first + n" 1 p] show ?thesis
      by (simp add: split_pages_close chunk_page_numbers_close_chunk del: split_pages.simps)
  next
    case False
    with Cons [of ord first "Suc n" "running + p"] show ?thesis
      by (simp add: split_pages_extend del: split_pages.simps)
  qed
qed

lemma split_pages_nonempty:
  "\<forall>ch \<in> set (split_pages parent key_of c ord first n running ps).
     fst (pageRange ch) \<le> snd (pageRange ch)"
proof (induction ps arbitrary: ord first n running)
  case Nil
  then show ?case
    by (auto simp add: close_chunk_def)
next
  case (Cons p ps)
  show ?case
  proof (cases "0 < n \<and> c < running + p")
    case True
    with Cons [of "Suc ord" "first + n" 1 p] show ?thesis
      by (auto simp add: split_pages_close close_chunk_def simp del: split_pages.simps)
  next
    case False
    with Cons [of ord first "Suc n" "running + p"] show ?thesis
      by (simp add: split_pages_extend del: split_pages.simps)
  qed
qed

lemma split_pages_ordinals:
  "map ordinal (split_pages parent key_of c ord first n running ps) =
     [ord ..< ord + length (split_pages parent key_of c ord first n running ps)]"
proof (induction ps arbitrary: ord first n running)
  case Nil
  then show ?case by (simp add: close_chunk_def)
next
  case (Cons p ps)
  show ?case
  proof (cases "0 < n \<and> c < running + p")
    case True
    with Cons [of "Suc ord" "first + n" 1 p] show ?thesis
      by (simp add: split_pages_close close_chunk_def upt_conv_Cons
          del: split_pages.simps upt_Suc)
  next
    case False
    with Cons [of ord first "Suc n" "running + p"] show ?thesis
      by (simp add: split_pages_extend del: split_pages.simps)
  qed
qed

lemma chunk_page_sizes_close_chunk:
  "0 < length cur \<Longrightarrow>
   chunk_page_sizes (pre @ cur @ rest)
     (close_chunk parent key_of ord (Suc (length pre)) (length cur) running) = cur"
  by (simp add: chunk_page_sizes_def close_chunk_def)

lemma split_sizeBytes_close_chunk:
  "split_sizeBytes (close_chunk parent key_of ord first n running) = running"
  by (simp add: close_chunk_def)

lemma split_pages_sizes:
  "\<forall>ch \<in> set (split_pages parent key_of c ord (Suc (length pre)) (length cur) (sum_list cur) ps).
     split_sizeBytes ch = sum_list (chunk_page_sizes (pre @ cur @ ps) ch)"
proof (induction ps arbitrary: ord pre cur)
  case Nil
  show ?case
    using chunk_page_sizes_close_chunk [of cur pre "[]" parent key_of ord "sum_list cur"]
    by (simp add: split_sizeBytes_close_chunk)
next
  case (Cons p ps)
  show ?case
  proof (cases "0 < length cur \<and> c < sum_list cur + p")
    case True
    have closed: "chunk_page_sizes (pre @ cur @ p # ps)
        (close_chunk parent key_of ord (Suc (length pre)) (length cur) (sum_list cur)) = cur"
      using True by (intro chunk_page_sizes_close_chunk) simp
    have "\<forall>ch \<in> set (split_pages parent key_of c (Suc ord) (Suc (length (pre @ cur)))
                     (length [p]) (sum_list [p]) ps).
            split_sizeBytes ch = sum_list (chunk_page_sizes ((pre @ cur) @ [p] @ ps) ch)"
      by (rule Cons)
    then have rest: "\<forall>ch \<in> set (split_pages parent key_of c (Suc ord)
                     (Suc (length pre) + length cur) 1 p ps).
            split_sizeBytes ch = sum_list (chunk_page_sizes (pre @ cur @ p # ps) ch)"
      by simp
    from True closed rest show ?thesis
      by (simp add: split_pages_close split_sizeBytes_close_chunk del: split_pages.simps)
  next
    case False
    have "\<forall>ch \<in> set (split_pages parent key_of c ord (Suc (length pre))
                     (length (cur @ [p])) (sum_list (cur @ [p])) ps).
            split_sizeBytes ch = sum_list (chunk_page_sizes (pre @ (cur @ [p]) @ ps) ch)"
      by (rule Cons)
    with False show ?thesis
      by (simp add: split_pages_extend del: split_pages.simps)
  qed
qed

lemma split_pages_bound:
  "n = 0 \<or> running \<le> c \<or> n = 1 \<Longrightarrow>
   \<forall>ch \<in> set (split_pages parent key_of c ord first n running ps).
     split_sizeBytes ch \<le> c \<or> fst (pageRange ch) = snd (pageRange ch)"
proof (induction ps arbitrary: ord first n running)
  case Nil
  then show ?case
    by (auto simp add: close_chunk_def)
next
  case (Cons p ps)
  show ?case
  proof (cases "0 < n \<and> c < running + p")
    case True
    have "\<forall>ch \<in> set (split_pages parent key_of c (Suc ord) (first + n) 1 p ps).
        split_sizeBytes ch \<le> c \<or> fst (pageRange ch) = snd (pageRange ch)"
      by (rule Cons.IH) simp
    moreover from Cons.prems True
    have "split_sizeBytes (close_chunk parent key_of ord first n running) \<le> c
        \<or> fst (pageRange (close_chunk parent key_of ord first n running))
          = snd (pageRange (close_chunk parent key_of ord first n running))"
      by (auto simp add: close_chunk_def)
    ultimately show ?thesis
      using True by (simp add: split_pages_close del: split_pages.simps)
  next
    case False
    with Cons.prems have "Suc n = 0 \<or> running + p \<le> c \<or> Suc n = 1"
      by auto
    from Cons.IH [OF this] False show ?thesis
      by (simp add: split_pages_extend del: split_pages.simps)
  qed
qed

lemma Split_page_numbers:
  "concat (map chunk_page_numbers (split_pages parent key_of c 0 1 0 0 sizes)) =
     [1 ..< Suc (length sizes)]"
  using split_pages_page_numbers [of parent key_of c 0 1 0 0 sizes] by simp

lemma Split_sizes:
  "\<forall>ch \<in> set (split_pages parent key_of c 0 1 0 0 sizes).
     split_sizeBytes ch = sum_list (chunk_page_sizes sizes ch)"
  using split_pages_sizes [of parent key_of c 0 "[]" "[]" sizes] by simp

lemma Split_bound:
  "\<forall>ch \<in> set (split_pages parent key_of c 0 1 0 0 sizes).
     split_sizeBytes ch \<le> c \<or> fst (pageRange ch) = snd (pageRange ch)"
  by (rule split_pages_bound) simp

lemma page_size_le_chunk:
  assumes "fst (pageRange ch) \<le> Suc i" and "Suc i \<le> snd (pageRange ch)" and "i < length sizes"
  shows "sizes ! i \<le> sum_list (chunk_page_sizes sizes ch)"
proof -
  let ?a = "fst (pageRange ch)" and ?b = "snd (pageRange ch)"
  have pos: "i - (?a - 1) < length (chunk_page_sizes sizes ch)"
    using assms by (auto simp add: chunk_page_sizes_def)
  have "chunk_page_sizes sizes ch ! (i - (?a - 1)) = sizes ! i"
    using assms by (simp add: chunk_page_sizes_def)
  with pos have "sizes ! i \<in> set (chunk_page_sizes sizes ch)"
    by (metis nth_mem)
  then show ?thesis
    by (simp add: member_le_sum_list)
qed

lemma one_page_chunk:
  assumes "fst (pageRange ch) = snd (pageRange ch)"
    and "c < sum_list (chunk_page_sizes sizes ch)"
  shows "\<exists>p. chunk_page_sizes sizes ch = [p] \<and> c < p"
proof (cases "drop (fst (pageRange ch) - 1) sizes")
  case Nil
  with assms show ?thesis
    by (simp add: chunk_page_sizes_def)
next
  case (Cons p rest)
  with assms show ?thesis
    by (simp add: chunk_page_sizes_def)
qed

text \<open>
  Claim C2. For every paginated document and every ceiling, the size of each chunk that
  \<open>Split\<close> produces is the sum of the sizes of its pages and is at most the ceiling,
  except for a chunk that holds exactly one page whose own size exceeds the ceiling; and
  every page whose size exceeds the ceiling is a one-page chunk by itself, at its full
  size.
\<close>

theorem Split_chunk_size_bound:
  "\<exists>chunks. Split parent key_of (Paginated sizes) ceilingBytes = Inr chunks
     \<and> (\<forall>ch \<in> set chunks.
           split_sizeBytes ch = sum_list (chunk_page_sizes sizes ch)
           \<and> (split_sizeBytes ch \<le> ceilingBytes
              \<or> (\<exists>p. chunk_page_sizes sizes ch = [p] \<and> ceilingBytes < p)))
     \<and> (\<forall>i < length sizes. ceilingBytes < sizes ! i \<longrightarrow>
           (\<exists>ch \<in> set chunks. pageRange ch = (Suc i, Suc i)))"
proof -
  let ?chunks = "split_pages parent key_of ceilingBytes 0 1 0 0 sizes"
  have bound: "split_sizeBytes ch = sum_list (chunk_page_sizes sizes ch)
      \<and> (split_sizeBytes ch \<le> ceilingBytes
         \<or> (\<exists>p. chunk_page_sizes sizes ch = [p] \<and> ceilingBytes < p))"
    if "ch \<in> set ?chunks" for ch
  proof -
    from that have size: "split_sizeBytes ch = sum_list (chunk_page_sizes sizes ch)"
      using Split_sizes by blast
    from that have "split_sizeBytes ch \<le> ceilingBytes \<or> fst (pageRange ch) = snd (pageRange ch)"
      using Split_bound by blast
    with size one_page_chunk [of ch ceilingBytes sizes] show ?thesis
      by (cases "split_sizeBytes ch \<le> ceilingBytes") auto
  qed
  have alone: "\<exists>ch \<in> set ?chunks. pageRange ch = (Suc i, Suc i)"
    if "i < length sizes" and "ceilingBytes < sizes ! i" for i
  proof -
    from that have "Suc i \<in> set [1 ..< Suc (length sizes)]"
      by (simp del: upt_Suc)
    then have "Suc i \<in> set (concat (map chunk_page_numbers ?chunks))"
      by (simp only: Split_page_numbers)
    then obtain ch where ch: "ch \<in> set ?chunks" and "Suc i \<in> set (chunk_page_numbers ch)"
      by auto
    then have range: "fst (pageRange ch) \<le> Suc i" "Suc i \<le> snd (pageRange ch)"
      by (simp_all add: chunk_page_numbers_def del: upt_Suc)
    with that have "sizes ! i \<le> sum_list (chunk_page_sizes sizes ch)"
      by (intro page_size_le_chunk)
    with ch that have "ceilingBytes < split_sizeBytes ch"
      using Split_sizes [of parent key_of ceilingBytes sizes] by auto
    with ch have "fst (pageRange ch) = snd (pageRange ch)"
      using Split_bound [of parent key_of ceilingBytes sizes] by auto
    with range have "pageRange ch = (Suc i, Suc i)"
      by (simp add: prod_eq_iff)
    with ch show ?thesis
      by blast
  qed
  have "Split parent key_of (Paginated sizes) ceilingBytes = Inr ?chunks"
    by (simp add: Split_def)
  moreover have "\<forall>ch \<in> set ?chunks.
      split_sizeBytes ch = sum_list (chunk_page_sizes sizes ch)
      \<and> (split_sizeBytes ch \<le> ceilingBytes
         \<or> (\<exists>p. chunk_page_sizes sizes ch = [p] \<and> ceilingBytes < p))"
    using bound by blast
  moreover have "\<forall>i < length sizes. ceilingBytes < sizes ! i \<longrightarrow>
      (\<exists>ch \<in> set ?chunks. pageRange ch = (Suc i, Suc i))"
    using alone by blast
  ultimately show ?thesis
    by (intro exI [of _ ?chunks] conjI)
qed

theorem Split_chunk_size_bound_witness:
  "\<exists>chunks. Split ''doc.pdf'' example_key_of (Paginated [300, 2000, 300, 400]) 1000 = Inr chunks
     \<and> map pageRange chunks = [(1, 1), (2, 2), (3, 4)]
     \<and> map split_sizeBytes chunks = [300, 2000, 700]
     \<and> (\<forall>ch \<in> set chunks.
           split_sizeBytes ch \<le> 1000
           \<or> (\<exists>p. chunk_page_sizes [300, 2000, 300, 400] ch = [p] \<and> 1000 < p))
     \<and> (\<exists>ch \<in> set chunks. pageRange ch = (2, 2))"
proof -
  have run: "split_pages ''doc.pdf'' example_key_of 1000 0 1 0 0 [300, 2000, 300, 400] =
      [close_chunk ''doc.pdf'' example_key_of 0 1 1 300,
       close_chunk ''doc.pdf'' example_key_of 1 2 1 2000,
       close_chunk ''doc.pdf'' example_key_of 2 3 2 700]"
    by (simp add: close_chunk_def example_key_of_def)
  have over: "(1::nat) < length [300, 2000, 300, 400::nat] \<and> (1000::nat) < [300, 2000, 300, 400] ! 1"
    by simp
  from Split_chunk_size_bound [of "''doc.pdf''" example_key_of "[300, 2000, 300, 400]" 1000]
  obtain chunks where
    chunks: "Split ''doc.pdf'' example_key_of (Paginated [300, 2000, 300, 400]) 1000 = Inr chunks"
    and bound: "\<forall>ch \<in> set chunks.
           split_sizeBytes ch \<le> 1000
           \<or> (\<exists>p. chunk_page_sizes [300, 2000, 300, 400] ch = [p] \<and> 1000 < p)"
    and alone: "\<forall>i < length [300, 2000, 300, 400::nat]. 1000 < [300, 2000, 300, 400::nat] ! i \<longrightarrow>
           (\<exists>ch \<in> set chunks. pageRange ch = (Suc i, Suc i))"
    by blast
  from alone over have two: "\<exists>ch \<in> set chunks. pageRange ch = (2, 2)"
    by (metis Suc_1)
  from chunks run have "chunks = [close_chunk ''doc.pdf'' example_key_of 0 1 1 300,
       close_chunk ''doc.pdf'' example_key_of 1 2 1 2000,
       close_chunk ''doc.pdf'' example_key_of 2 3 2 700]"
    by (simp add: Split_def)
  then have "map pageRange chunks = [(1, 1), (2, 2), (3, 4)]"
    and "map split_sizeBytes chunks = [300, 2000, 700]"
    by (simp_all add: close_chunk_def)
  with chunks bound two show ?thesis
    by (intro exI [of _ chunks] conjI)
qed

text \<open>
  Claim C3. For every paginated document and every ceiling, the page ranges of the chunks
  of \<open>Split\<close>, concatenated in list order, which is the order of their ordinals, are
  exactly the pages \<open>1, \<dots>, pageCount\<close>; and every chunk holds at least one page.
\<close>

theorem Split_page_ranges_partition:
  "\<exists>chunks. Split parent key_of (Paginated sizes) ceilingBytes = Inr chunks
     \<and> concat (map chunk_page_numbers chunks) = [1 ..< Suc (length sizes)]
     \<and> (\<forall>ch \<in> set chunks. fst (pageRange ch) \<le> snd (pageRange ch))
     \<and> map ordinal chunks = [0 ..< length chunks]"
  using split_pages_nonempty [of parent key_of ceilingBytes 0 1 0 0 sizes]
    split_pages_ordinals [of parent key_of ceilingBytes 0 1 0 0 sizes]
    Split_page_numbers [of parent key_of ceilingBytes sizes]
  by (simp add: Split_def del: upt_Suc)

theorem Split_page_ranges_partition_witness:
  "\<exists>chunks. Split ''doc.pdf'' example_key_of (Paginated ten_pages) 1048576 = Inr chunks
     \<and> map pageRange chunks = [(1, 3), (4, 6), (7, 9), (10, 10)]
     \<and> concat (map chunk_page_numbers chunks) = [1, 2, 3, 4, 5, 6, 7, 8, 9, 10]
     \<and> (\<forall>ch \<in> set chunks. fst (pageRange ch) \<le> snd (pageRange ch))"
proof -
  have run: "split_pages ''doc.pdf'' example_key_of 1048576 0 1 0 0 ten_pages =
      [close_chunk ''doc.pdf'' example_key_of 0 1 3 921600,
       close_chunk ''doc.pdf'' example_key_of 1 4 3 921600,
       close_chunk ''doc.pdf'' example_key_of 2 7 3 921600,
       close_chunk ''doc.pdf'' example_key_of 3 10 1 307200]"
    by (simp add: ten_pages_def close_chunk_def example_key_of_def)
  from Split_page_ranges_partition [of "''doc.pdf''" example_key_of ten_pages 1048576]
  obtain chunks where
    chunks: "Split ''doc.pdf'' example_key_of (Paginated ten_pages) 1048576 = Inr chunks"
    and numbers: "concat (map chunk_page_numbers chunks) = [1 ..< Suc (length ten_pages)]"
    and nonempty: "\<forall>ch \<in> set chunks. fst (pageRange ch) \<le> snd (pageRange ch)"
    by blast
  from chunks run have "chunks = [close_chunk ''doc.pdf'' example_key_of 0 1 3 921600,
       close_chunk ''doc.pdf'' example_key_of 1 4 3 921600,
       close_chunk ''doc.pdf'' example_key_of 2 7 3 921600,
       close_chunk ''doc.pdf'' example_key_of 3 10 1 307200]"
    by (simp add: Split_def)
  then have ranges: "map pageRange chunks = [(1, 3), (4, 6), (7, 9), (10, 10)]"
    by (simp add: close_chunk_def)
  have "[1 ..< Suc (length ten_pages)] = [1, 2, 3, 4, 5, 6, 7, 8, 9, 10]"
    by (simp add: ten_pages_def upt_conv_Cons del: upt_Suc)
  with numbers have "concat (map chunk_page_numbers chunks) = [1, 2, 3, 4, 5, 6, 7, 8, 9, 10]"
    by simp
  with chunks ranges nonempty show ?thesis
    by (intro exI [of _ chunks] conjI)
qed

section \<open>Properties of the OCR Extractor\<close>

lemma step_terminal: "terminal (state job) \<Longrightarrow> step timeout job ev = job"
  by (auto simp add: terminal_def step_def)

lemma run_terminal: "terminal (state job) \<Longrightarrow> run timeout evs job = job"
  by (induction evs) (simp_all add: run_def step_terminal)

lemma run_append: "run timeout (xs @ ys) job = run timeout ys (run timeout xs job)"
  by (simp add: run_def)

lemma run_take_terminal:
  assumes "i \<le> k" and "terminal (state (run timeout (take i evs) job))"
  shows "run timeout (take k evs) job = run timeout (take i evs) job"
proof -
  from assms(1) have "take k evs = take i evs @ take (k - i) (drop i evs)"
    by (metis le_add_diff_inverse take_add)
  with assms(2) show ?thesis
    by (simp add: run_append run_terminal)
qed

text \<open>
  Claim C5. A step never changes a job whose state is \<open>Succeeded\<close>, \<open>Failed\<close> or
  \<open>TimedOut\<close>; so along every sequence of steps, once the state reached after \<open>i\<close>
  steps is terminal, the state (and the blocks) after any later number \<open>k\<close> of steps is
  the same.
\<close>

theorem terminal_states_are_final:
  "(terminal (state job) \<longrightarrow> step timeout job ev = job)
   \<and> (i \<le> k \<and> terminal (state (run timeout (take i evs) job)) \<longrightarrow>
        state (run timeout (take k evs) job) = state (run timeout (take i evs) job)
        \<and> blocks (run timeout (take k evs) job) = blocks (run timeout (take i evs) job))"
  using run_take_terminal [of i k timeout evs job] by (simp add: step_terminal)

theorem terminal_states_are_final_witness:
  "state (run 300000 (take 3 example_events) (Submit ''job-1'' ''u1/c1/documents/scan.pdf'')) = Succeeded
   \<and> state (run 300000 (take 5 example_events) (Submit ''job-1'' ''u1/c1/documents/scan.pdf'')) = Succeeded
   \<and> step 300000 (run 300000 (take 3 example_events) (Submit ''job-1'' ''u1/c1/documents/scan.pdf''))
        (400000, JobFailed)
      = run 300000 (take 3 example_events) (Submit ''job-1'' ''u1/c1/documents/scan.pdf'')"
proof -
  let ?job = "Submit ''job-1'' ''u1/c1/documents/scan.pdf''"
  have reached: "state (run 300000 (take 3 example_events) ?job) = Succeeded"
    by (simp add: example_events_def run_def step_def Submit_def)
  then have final: "terminal (state (run 300000 (take 3 example_events) ?job))"
    by (simp add: terminal_def)
  from final terminal_states_are_final
    [of "run 300000 (take 3 example_events) ?job" 300000 "(400000, JobFailed)"]
  have absorbed: "step 300000 (run 300000 (take 3 example_events) ?job) (400000, JobFailed)
      = run 300000 (take 3 example_events) ?job"
    by simp
  from final terminal_states_are_final [of ?job 300000 _ 3 5 example_events]
  have "state (run 300000 (take 5 example_events) ?job)
      = state (run 300000 (take 3 example_events) ?job)"
    by simp
  with reached absorbed show ?thesis
    by simp
qed

section \<open>Properties of the Attachment Resolver\<close>

lemma length_fold_finish_task:
  "length (fold (finish_task srv atts) completion slots) = length slots"
  by (induction completion arbitrary: slots) (simp_all add: finish_task_def)

lemma nth_fold_finish_task:
  "length slots = length atts \<Longrightarrow> j < length atts \<Longrightarrow>
   fold (finish_task srv atts) completion slots ! j =
     (if j \<in> set completion then Done (resolve_one srv (atts ! j)) else slots ! j)"
proof (induction completion arbitrary: slots)
  case Nil
  then show ?case by simp
next
  case (Cons i completion)
  have "length (finish_task srv atts i slots) = length atts"
    using Cons.prems by (simp add: finish_task_def)
  from Cons.IH [OF this Cons.prems(2)] Cons.prems show ?case
    by (auto simp add: finish_task_def nth_list_update)
qed

lemma all_tasks_finished:
  assumes "set completion = {..<length atts}"
  shows "fold (finish_task srv atts) completion (replicate (length atts) Pending) =
           map (\<lambda>a. Done (resolve_one srv a)) atts"
proof (rule nth_equalityI)
  show "length (fold (finish_task srv atts) completion (replicate (length atts) Pending)) =
          length (map (\<lambda>a. Done (resolve_one srv a)) atts)"
    by (simp add: length_fold_finish_task)
next
  fix j
  assume "j < length (fold (finish_task srv atts) completion (replicate (length atts) Pending))"
  then have j: "j < length atts"
    by (simp add: length_fold_finish_task)
  with assms have "j \<in> set completion"
    by simp
  with j show "fold (finish_task srv atts) completion (replicate (length atts) Pending) ! j =
                 map (\<lambda>a. Done (resolve_one srv a)) atts ! j"
    by (simp add: nth_fold_finish_task)
qed

lemma compact_slots_Done:
  "compact_slots (map (\<lambda>a. Done (f a)) atts) = List.map_filter f atts"
proof (induction atts)
  case Nil
  then show ?case by simp
next
  case (Cons a atts)
  then show ?case
    by (cases "f a") simp_all
qed

lemma resolve_message_in_order:
  "set completion = {..<length atts} \<Longrightarrow>
   resolve_message srv completion atts = resolve_in_order srv atts"
  by (simp add: resolve_message_def resolve_in_order_def all_tasks_finished compact_slots_Done)

lemma resolve_one_failed_extraction:
  "classify srv a = ObjectOCR r \<Longrightarrow> extract_text srv r = Inl e \<Longrightarrow> resolve_one srv a = None"
  by (simp add: resolve_one_def)

lemma resolve_in_order_dropped:
  "resolve_one srv a = None \<Longrightarrow>
   resolve_in_order srv (pre @ a # post) = resolve_in_order srv pre @ resolve_in_order srv post"
  by (simp add: resolve_in_order_def map_filter_def)

text \<open>
  Claim C4. When the extraction of an OCR-routed attachment fails with
  \<open>ExtractionFailed\<close>, the resolver returns, whatever the order in which the tasks
  complete, the blocks of the attachments before it followed by the blocks of the
  attachments after it, each resolved as usual: the failed attachment is dropped, the
  result is a plain list (no error value), and the original order is kept. For three
  attachments of which the second fails and the other two resolve, the result is the
  first block followed by the third.
\<close>

theorem failed_extraction_is_dropped:
  assumes "set completion = {..<length (pre @ a # post)}"
    and "classify srv a = ObjectOCR r"
    and "extract_text srv r = Inl ExtractionFailed"
  shows "resolve_message srv completion (pre @ a # post) =
           resolve_in_order srv pre @ resolve_in_order srv post
         \<and> (\<forall>a1 a3 b1 b3.
               pre = [a1] \<and> post = [a3] \<and> resolve_one srv a1 = Some b1 \<and> resolve_one srv a3 = Some b3
               \<longrightarrow> resolve_message srv completion (pre @ a # post) = [b1, b3])"
proof -
  from assms(2,3) have "resolve_one srv a = None"
    by (rule resolve_one_failed_extraction)
  with assms(1) have "resolve_message srv completion (pre @ a # post) =
      resolve_in_order srv pre @ resolve_in_order srv post"
    by (simp only: resolve_message_in_order resolve_in_order_dropped)
  then show ?thesis
    by (auto simp add: resolve_in_order_def)
qed

theorem failed_extraction_is_dropped_witness:
  "resolve_message example_services [2, 0, 1] [first_attachment, second_attachment, third_attachment] =
     [InlineBinary ''a.txt'' ''text/plain'' ''hello'',
      InlineBinary ''c.pdf'' ''application/pdf'' ''bytes of u1/c1/documents/c.pdf'']"
proof -
  have order: "set [2, 0, 1 :: nat] = {..<length ([first_attachment] @ second_attachment # [third_attachment])}"
    by auto
  have route: "classify example_services second_attachment = ObjectOCR second_reference"
    by (simp add: classify_def example_services_def second_attachment_def)
  have failed: "extract_text example_services second_reference = Inl ExtractionFailed"
    by (simp add: example_services_def)
  have others: "resolve_one example_services first_attachment =
        Some (InlineBinary ''a.txt'' ''text/plain'' ''hello'')"
      "resolve_one example_services third_attachment =
        Some (InlineBinary ''c.pdf'' ''application/pdf'' ''bytes of u1/c1/documents/c.pdf'')"
    by (simp_all add: resolve_one_def classify_def example_services_def first_attachment_def
        third_attachment_def)
  from failed_extraction_is_dropped [OF order route failed]
  have "\<forall>a1 a3 b1 b3.
      [first_attachment] = [a1] \<and> [third_attachment] = [a3]
      \<and> resolve_one example_services a1 = Some b1 \<and> resolve_one example_services a3 = Some b3
      \<longrightarrow> resolve_message example_services [2, 0, 1]
            ([first_attachment] @ second_attachment # [third_attachment]) = [b1, b3]"
    by (rule conjunct2)
  with others show ?thesis
    by simp
qed

end
